theory Spec2Isabelle
  imports Main "HOL-Library.AList"
begin

section \<open>Python strings\<close>

text \<open>
  A Python \<^verbatim>\<open>str\<close> is a sequence of Unicode code points, so it is modelled as a list
  of natural numbers (the code points), not as a list of bytes. The digit \<^verbatim>\<open>'0'\<close> is
  48 and \<^verbatim>\<open>'1'\<close> to \<^verbatim>\<open>'9'\<close> are 49 to 57.
\<close>

type_synonym pystr = "nat list"

definition in_ranges :: "(nat \<times> nat) list \<Rightarrow> nat \<Rightarrow> bool" where
  "in_ranges rs c = list_ex (\<lambda>(lo, hi). lo \<le> c \<and> c \<le> hi) rs"

text \<open>
  \<^verbatim>\<open>str.isdigit\<close> holds of the characters whose Unicode property Numeric_Type is
  Digit or Decimal. The table lists them as inclusive ranges of code points (Unicode
  14.0.0, the database of CPython 3.11): the ASCII digits come first, and the decimal
  digits of the other scripts and the superscript, subscript and circled digits follow.
\<close>

definition isdigit_ranges :: "(nat \<times> nat) list" where
  "isdigit_ranges =
    [(48, 57), (178, 179), (185, 185), (1632, 1641), (1776, 1785), (1984, 1993),
     (2406, 2415), (2534, 2543), (2662, 2671), (2790, 2799), (2918, 2927), (3046, 3055),
     (3174, 3183), (3302, 3311), (3430, 3439), (3558, 3567), (3664, 3673), (3792, 3801),
     (3872, 3881), (4160, 4169), (4240, 4249), (4969, 4977), (6112, 6121), (6160, 6169),
     (6470, 6479), (6608, 6618), (6784, 6793), (6800, 6809), (6992, 7001), (7088, 7097),
     (7232, 7241), (7248, 7257), (8304, 8304), (8308, 8313), (8320, 8329), (9312, 9320),
     (9332, 9340), (9352, 9360), (9450, 9450), (9461, 9469), (9471, 9471), (10102, 10110),
     (10112, 10120), (10122, 10130), (42528, 42537), (43216, 43225), (43264, 43273),
     (43472, 43481), (43504, 43513), (43600, 43609), (44016, 44025), (65296, 65305),
     (66720, 66729), (68160, 68163), (68912, 68921), (69216, 69224), (69714, 69722),
     (69734, 69743), (69872, 69881), (69942, 69951), (70096, 70105), (70384, 70393),
     (70736, 70745), (70864, 70873), (71248, 71257), (71360, 71369), (71472, 71481),
     (71904, 71913), (72016, 72025), (72784, 72793), (73040, 73049), (73120, 73129),
     (92768, 92777), (92864, 92873), (93008, 93017), (120782, 120831), (123200, 123209),
     (123632, 123641), (125264, 125273), (127232, 127242), (130032, 130041)]"

definition char_isdigit :: "nat \<Rightarrow> bool" where
  "char_isdigit c = in_ranges isdigit_ranges c"

text \<open>\<^verbatim>\<open>s.isdigit()\<close>: every character is a digit and there is at least one.\<close>

definition isdigit :: "pystr \<Rightarrow> bool" where
  "isdigit s = (s \<noteq> [] \<and> list_all char_isdigit s)"

text \<open>
  \<^verbatim>\<open>str.isspace\<close> of one character, again as ranges of code points; \<^verbatim>\<open>s.strip()\<close>
  removes the leading and the trailing characters of that class.
\<close>

definition isspace_ranges :: "(nat \<times> nat) list" where
  "isspace_ranges =
    [(9, 13), (28, 32), (133, 133), (160, 160), (5760, 5760), (8192, 8202), (8232, 8233),
     (8239, 8239), (8287, 8287), (12288, 12288)]"

definition char_isspace :: "nat \<Rightarrow> bool" where
  "char_isspace c = in_ranges isspace_ranges c"

definition strip :: "pystr \<Rightarrow> pystr" where
  "strip s = rev (dropWhile char_isspace (rev (dropWhile char_isspace s)))"

section \<open>Validation and scoring\<close>

datatype exn = IndexError | KeyError | TypeError

text \<open>
  \<^verbatim>\<open>
  def valid_secret(num: str) -> bool:
      if not num.isdigit() or len(num) != 4:
          return False
      digits = list(num)
      if '0' in digits:
          return False
      if len(set(digits)) != 4:
          return False
      return True
  \<close>
\<close>

definition valid_secret :: "pystr \<Rightarrow> bool" where
  "valid_secret num =
     (if \<not> isdigit num \<or> length num \<noteq> 4 then False
      else let digits = num in
        if 48 \<in> set digits then False
        else if card (set digits) \<noteq> 4 then False
        else True)"

text \<open>
  \<^verbatim>\<open>
  def compare_guess(secret: str, guess: str):
      values = sum(1 for d in guess if d in secret)
      positions = sum(1 for i in range(4) if guess[i] == secret[i])
      return values, positions
  \<close>
  Subscripting a string past its end raises \<^verbatim>\<open>IndexError\<close>; the indices 0 to 3 are
  read in order, so the call raises exactly when one of the strings is shorter than 4.
\<close>

definition compare_guess :: "pystr \<Rightarrow> pystr \<Rightarrow> exn + (nat \<times> nat)" where
  "compare_guess secret guess =
     (let values = length (filter (\<lambda>d. d \<in> set secret) guess) in
      if length guess < 4 \<or> length secret < 4 then Inl IndexError
      else let positions = length (filter (\<lambda>i. guess ! i = secret ! i) [0..<4])
           in Inr (values, positions))"

section \<open>The games table\<close>

text \<open>
  \<^verbatim>\<open>GAMES\<close> is a dict from the group chat's id to a game, itself a dict with the keys
  \<^verbatim>\<open>'players'\<close> (list of user ids, in join order), \<^verbatim>\<open>'player_names'\<close> (id to name),
  \<^verbatim>\<open>'secrets'\<close> (id to secret or \<^verbatim>\<open>None\<close>), \<^verbatim>\<open>'turn_index'\<close> and \<^verbatim>\<open>'finished'\<close>.
  Every game is built by \<^verbatim>\<open>newgame\<close> with all five keys, so a game is a record; a
  value of \<^verbatim>\<open>'secrets'\<close> is \<open>Some None\<close> for a key that holds \<^verbatim>\<open>None\<close>.
  \<^verbatim>\<open>GAMES\<close> is iterated by \<^verbatim>\<open>secret\<close>, in insertion order, so it is an association
  list: \<open>AList.update\<close> replaces the value of a key in place and appends a new key at
  the end, \<open>AList.delete\<close> is \<^verbatim>\<open>pop\<close>, \<open>map_of\<close> is the lookup.
\<close>

record game =
  players :: "int list"
  player_names :: "int \<rightharpoonup> pystr"
  secrets :: "int \<rightharpoonup> pystr option"
  turn_index :: int
  finished :: bool

type_synonym games = "(int \<times> game) list"

text \<open>What a handler reads of the incoming update.\<close>

datatype chat_kind = Private | Group | Supergroup | Channel

record upd =
  chat_type :: chat_kind
  chat_id :: int
  user_id :: int
  first_name :: pystr

text \<open>
  The texts sent back, one constructor per \<^verbatim>\<open>reply_text\<close> or \<^verbatim>\<open>send_message\<close> of the
  source, with the values its format string interpolates.
\<close>

datatype reply =
    NewGameInGroupOnly
  | GameAlreadyActive
  | NewGameCreated
  | JoinInGroupOnly
  | NoActiveGameHere
  | AlreadyJoined
  | GameFull
  | Joined pystr nat
  | TwoPlayersJoined pystr pystr
  | SecretInPrivateOnly
  | SecretUsage
  | InvalidSecret
  | NoGameAwaitingSecret
  | SecretSaved int
  | GameStarts int pystr pystr
  | GuessInGroupOnly
  | NoActiveGameInGroup
  | NotAPlayer
  | GuessUsage
  | InvalidGuess
  | WaitingForSecrets
  | NotYourTurn pystr
  | GuessResult pystr pystr nat nat pystr
  | Wins pystr pystr
  | NowTurn pystr
  | CancelInGroupOnly
  | NoGameToCancel
  | GameCancelled

text \<open>
  A handler run ends by returning or by raising; either way it has sent some replies
  and left \<^verbatim>\<open>GAMES\<close> in some state.
\<close>

datatype outcome = Outcome (raised: "exn option") (replies: "reply list") (games_of: games)

text \<open>\<^verbatim>\<open>xs[i]\<close> on a list, for a Python int \<open>i\<close>: a negative index counts from the end.\<close>

definition subscript :: "'a list \<Rightarrow> int \<Rightarrow> exn + 'a" where
  "subscript xs i =
     (if 0 \<le> i \<and> i < int (length xs) then Inr (xs ! nat i)
      else if i < 0 \<and> - int (length xs) \<le> i then Inr (xs ! nat (int (length xs) + i))
      else Inl IndexError)"

text \<open>The truth value of \<^verbatim>\<open>game['secrets'].get(pid)\<close>: neither missing, \<^verbatim>\<open>None\<close> nor empty.\<close>

definition secret_set :: "game \<Rightarrow> int \<Rightarrow> bool" where
  "secret_set g pid = (case secrets g pid of Some (Some s) \<Rightarrow> s \<noteq> [] | _ \<Rightarrow> False)"

text \<open>\<^verbatim>\<open>g['secrets'].get(uid) is None\<close>.\<close>

definition secret_is_none :: "game \<Rightarrow> int \<Rightarrow> bool" where
  "secret_is_none g uid = (case secrets g uid of Some (Some s) \<Rightarrow> False | _ \<Rightarrow> True)"

section \<open>Command handlers\<close>

definition fresh_game :: game where
  "fresh_game = \<lparr>players = [], player_names = Map.empty, secrets = Map.empty,
                  turn_index = 0, finished = False\<rparr>"

definition newgame :: "upd \<Rightarrow> games \<Rightarrow> outcome" where
  "newgame u GAMES =
     (if chat_type u = Private then Outcome None [NewGameInGroupOnly] GAMES
      else if (case map_of GAMES (chat_id u) of None \<Rightarrow> False | Some g \<Rightarrow> \<not> finished g)
      then Outcome None [GameAlreadyActive] GAMES
      else Outcome None [NewGameCreated] (AList.update (chat_id u) fresh_game GAMES))"

definition join :: "upd \<Rightarrow> games \<Rightarrow> outcome" where
  "join u GAMES =
     (if chat_type u = Private then Outcome None [JoinInGroupOnly] GAMES
      else case map_of GAMES (chat_id u) of
        None \<Rightarrow> Outcome None [NoActiveGameHere] GAMES
      | Some g \<Rightarrow>
          if finished g then Outcome None [NoActiveGameHere] GAMES
          else if user_id u \<in> set (players g) then Outcome None [AlreadyJoined] GAMES
          else if length (players g) \<ge> 2 then Outcome None [GameFull] GAMES
          else
            let g' = g\<lparr>players := players g @ [user_id u],
                        player_names := (player_names g)(user_id u \<mapsto> first_name u),
                        secrets := (secrets g)(user_id u \<mapsto> None)\<rparr>;
                GAMES' = AList.update (chat_id u) g' GAMES;
                joined = Joined (first_name u) (length (players g'))
            in if length (players g') = 2 then
                 (case player_names g' (players g' ! 0) of
                    None \<Rightarrow> Outcome (Some KeyError) [joined] GAMES'
                  | Some p1 \<Rightarrow>
                      (case player_names g' (players g' ! 1) of
                         None \<Rightarrow> Outcome (Some KeyError) [joined] GAMES'
                       | Some p2 \<Rightarrow> Outcome None [joined, TwoPlayersJoined p1 p2] GAMES'))
               else Outcome None [joined] GAMES')"

text \<open>
  \<^verbatim>\<open>secret\<close> carries no chat id of a group: it collects the games of \<^verbatim>\<open>GAMES\<close>, in
  iteration order, that have the user as a player, are not finished and hold no secret
  of the user, and writes the secret to the first. The announcement that follows reads
  \<^verbatim>\<open>game['players'][0]\<close> and \<^verbatim>\<open>[1]\<close> and their names.
\<close>

definition awaiting :: "int \<Rightarrow> int \<times> game \<Rightarrow> bool" where
  "awaiting uid e = (uid \<in> set (players (snd e)) \<and> \<not> finished (snd e) \<and> secret_is_none (snd e) uid)"

definition secret :: "upd \<Rightarrow> pystr list \<Rightarrow> games \<Rightarrow> outcome" where
  "secret u args GAMES =
     (if chat_type u \<noteq> Private then Outcome None [SecretInPrivateOnly] GAMES
      else if length args \<noteq> 1 then Outcome None [SecretUsage] GAMES
      else
        let num = strip (hd args) in
        if \<not> valid_secret num then Outcome None [InvalidSecret] GAMES
        else case filter (awaiting (user_id u)) GAMES of
          [] \<Rightarrow> Outcome None [NoGameAwaitingSecret] GAMES
        | (gid, g) # _ \<Rightarrow>
            let g' = g\<lparr>secrets := (secrets g)(user_id u \<mapsto> Some num)\<rparr>;
                GAMES' = AList.update gid g' GAMES
            in if list_all (secret_set g') (players g') then
                 (case players g' of
                    [] \<Rightarrow> Outcome (Some IndexError) [SecretSaved gid] GAMES'
                  | a # rest \<Rightarrow>
                      (case player_names g' a of
                         None \<Rightarrow> Outcome (Some KeyError) [SecretSaved gid] GAMES'
                       | Some p1 \<Rightarrow>
                           (case rest of
                              [] \<Rightarrow> Outcome (Some IndexError) [SecretSaved gid] GAMES'
                            | b # _ \<Rightarrow>
                                (case player_names g' b of
                                   None \<Rightarrow> Outcome (Some KeyError) [SecretSaved gid] GAMES'
                                 | Some p2 \<Rightarrow>
                                     Outcome None [SecretSaved gid, GameStarts gid p1 p2] GAMES'))))
               else Outcome None [SecretSaved gid] GAMES')"

text \<open>
  \<^verbatim>\<open>guess\<close>, in the order of the source: chat type, active game, membership, argument
  count, well-formed guess, both secrets set, turn, then the comparison against the
  opponent's secret. The last two steps are \<open>play\<close>.
\<close>

definition play :: "upd \<Rightarrow> pystr \<Rightarrow> game \<Rightarrow> games \<Rightarrow> outcome" where
  "play u guess_num g GAMES =
     (case filter (\<lambda>pid. pid \<noteq> user_id u) (players g) of
        [] \<Rightarrow> Outcome (Some IndexError) [] GAMES
      | opponent_id # _ \<Rightarrow>
          (case player_names g opponent_id of
             None \<Rightarrow> Outcome (Some KeyError) [] GAMES
           | Some opponent_name \<Rightarrow>
               (case secrets g opponent_id of
                  None \<Rightarrow> Outcome (Some KeyError) [] GAMES
                | Some None \<Rightarrow> Outcome (Some TypeError) [] GAMES
                | Some (Some opponent_secret) \<Rightarrow>
                    (case compare_guess opponent_secret guess_num of
                       Inl e \<Rightarrow> Outcome (Some e) [] GAMES
                     | Inr (values, positions) \<Rightarrow>
                         let correct_pos_digits =
                               map ((!) guess_num)
                                 (filter (\<lambda>i. guess_num ! i = opponent_secret ! i) [0..<4]);
                             result = GuessResult (first_name u) guess_num values positions
                                        correct_pos_digits
                         in if positions = 4 then
                              Outcome None [result, Wins (first_name u) opponent_name]
                                (AList.update (chat_id u) (g\<lparr>finished := True\<rparr>) GAMES)
                            else
                              let g' = g\<lparr>turn_index := 1 - turn_index g\<rparr>;
                                  GAMES' = AList.update (chat_id u) g' GAMES
                              in (case subscript (players g') (turn_index g') of
                                    Inl e \<Rightarrow> Outcome (Some e) [result] GAMES'
                                  | Inr next_id \<Rightarrow>
                                      (case player_names g' next_id of
                                         None \<Rightarrow> Outcome (Some KeyError) [result] GAMES'
                                       | Some next_player \<Rightarrow>
                                           Outcome None [result, NowTurn next_player] GAMES'))))))"

definition guess :: "upd \<Rightarrow> pystr list \<Rightarrow> games \<Rightarrow> outcome" where
  "guess u args GAMES =
     (if chat_type u = Private then Outcome None [GuessInGroupOnly] GAMES
      else case map_of GAMES (chat_id u) of
        None \<Rightarrow> Outcome None [NoActiveGameInGroup] GAMES
      | Some g \<Rightarrow>
          if finished g then Outcome None [NoActiveGameInGroup] GAMES
          else if user_id u \<notin> set (players g) then Outcome None [NotAPlayer] GAMES
          else if length args \<noteq> 1 then Outcome None [GuessUsage] GAMES
          else
            let guess_num = strip (hd args) in
            if \<not> valid_secret guess_num then Outcome None [InvalidGuess] GAMES
            else if \<not> list_all (secret_set g) (players g)
            then Outcome None [WaitingForSecrets] GAMES
            else
              (case subscript (players g) (turn_index g) of
                 Inl e \<Rightarrow> Outcome (Some e) [] GAMES
               | Inr current_player_id \<Rightarrow>
                   if user_id u \<noteq> current_player_id then
                     (case player_names g current_player_id of
                        None \<Rightarrow> Outcome (Some KeyError) [] GAMES
                      | Some cur_name \<Rightarrow> Outcome None [NotYourTurn cur_name] GAMES)
                   else play u guess_num g GAMES))"

definition cancel :: "upd \<Rightarrow> games \<Rightarrow> outcome" where
  "cancel u GAMES =
     (if chat_type u = Private then Outcome None [CancelInGroupOnly] GAMES
      else if map_of GAMES (chat_id u) = None then Outcome None [NoGameToCancel] GAMES
      else Outcome None [GameCancelled] (AList.delete (chat_id u) GAMES))"

section \<open>Phases\<close>

text \<open>
  The game dict has no phase key. The phase of a game is read off its state the way
  the handlers' guards do: finished; fewer than two players; both secrets set or not.
\<close>

datatype phase = FORMING | AWAITING_SECRETS | IN_PROGRESS | FINISHED

definition phase_of :: "game \<Rightarrow> phase" where
  "phase_of g =
     (if finished g then FINISHED
      else if length (players g) < 2 then FORMING
      else if list_all (secret_set g) (players g) then IN_PROGRESS
      else AWAITING_SECRETS)"

text \<open>
  What every game that the handlers build satisfies: at most two players, no player
  twice, a name and a \<^verbatim>\<open>'secrets'\<close> entry for each player and for nobody else, only
  well-formed secrets, and a turn index of 0 or 1.
\<close>

definition wf_game :: "game \<Rightarrow> bool" where
  "wf_game g =
     (distinct (players g) \<and> length (players g) \<le> 2
      \<and> dom (player_names g) = set (players g)
      \<and> dom (secrets g) = set (players g)
      \<and> list_all (\<lambda>p. case secrets g p of Some (Some s) \<Rightarrow> valid_secret s | _ \<Rightarrow> True) (players g)
      \<and> (turn_index g = 0 \<or> turn_index g = 1)
      \<and> (length (players g) < 2 \<longrightarrow> turn_index g = 0 \<and> \<not> finished g))"

definition wf_games :: "games \<Rightarrow> bool" where
  "wf_games GAMES = (distinct (map fst GAMES) \<and> list_all (\<lambda>e. wf_game (snd e)) GAMES)"

section \<open>A sample match\<close>

text \<open>
  The match of the end-to-end scenario: in the group chat 100 the users 1 (\<^verbatim>\<open>"A"\<close>) and
  2 (\<^verbatim>\<open>"B"\<close>) join, then send the secrets \<^verbatim>\<open>"1234"\<close> and \<^verbatim>\<open>"5678"\<close> from their private
  chats.
\<close>

definition p1_group :: upd where
  "p1_group = \<lparr>chat_type = Group, chat_id = 100, user_id = 1, first_name = [65]\<rparr>"

definition p2_group :: upd where
  "p2_group = \<lparr>chat_type = Group, chat_id = 100, user_id = 2, first_name = [66]\<rparr>"

definition p1_private :: upd where
  "p1_private = \<lparr>chat_type = Private, chat_id = 1, user_id = 1, first_name = [65]\<rparr>"

definition p2_private :: upd where
  "p2_private = \<lparr>chat_type = Private, chat_id = 2, user_id = 2, first_name = [66]\<rparr>"

definition joined_game :: game where
  "joined_game = \<lparr>players = [1, 2], player_names = [1 \<mapsto> [65], 2 \<mapsto> [66]],
                   secrets = [1 \<mapsto> None, 2 \<mapsto> None], turn_index = 0, finished = False\<rparr>"

definition started_game :: game where
  "started_game = \<lparr>players = [1, 2], player_names = [1 \<mapsto> [65], 2 \<mapsto> [66]],
                    secrets = [1 \<mapsto> Some [49, 50, 51, 52], 2 \<mapsto> Some [53, 54, 55, 56]],
                    turn_index = 0, finished = False\<rparr>"

section \<open>Validation\<close>

lemma char_isdigit_ascii: "c < 128 \<Longrightarrow> char_isdigit c \<longleftrightarrow> 48 \<le> c \<and> c \<le> 57"
  by (simp add: char_isdigit_def in_ranges_def isdigit_ranges_def)

text \<open>
  On ASCII strings \<open>valid_secret\<close> is what its comment says: four characters, each of
  \<^verbatim>\<open>'1'\<close> to \<^verbatim>\<open>'9'\<close>, no repeats.
\<close>

lemma valid_secret_ascii:
  assumes "\<forall>c \<in> set s. c < 128"
  shows "valid_secret s \<longleftrightarrow> length s = 4 \<and> (\<forall>c \<in> set s. 49 \<le> c \<and> c \<le> 57) \<and> distinct s"
proof -
  have d: "list_all char_isdigit s \<longleftrightarrow> (\<forall>c \<in> set s. 48 \<le> c \<and> c \<le> 57)"
    using assms by (auto simp: list_all_iff char_isdigit_ascii)
  have c: "length s = 4 \<Longrightarrow> card (set s) = 4 \<longleftrightarrow> distinct s"
    using card_distinct[of s] distinct_card[of s] by auto
  have z: "(\<forall>c \<in> set s. 48 \<le> c \<and> c \<le> 57) \<and> 48 \<notin> set s \<longleftrightarrow> (\<forall>c \<in> set s. 49 \<le> c \<and> c \<le> 57)"
    by (auto simp: le_less Suc_le_eq)
  show ?thesis
    unfolding valid_secret_def isdigit_def Let_def d using c z
    by auto
qed

lemma valid_secret_length: "valid_secret s \<Longrightarrow> length s = 4"
  by (simp add: valid_secret_def split: if_splits)

text \<open>
  C1. The claim: \<open>valid_secret s\<close> holds exactly when \<open>s\<close> has four characters, each one
  of \<^verbatim>\<open>'1'\<close> to \<^verbatim>\<open>'9'\<close>, pairwise distinct. The code tests the characters with
  \<^verbatim>\<open>str.isdigit\<close>, which also holds of the digits of other scripts, and then excludes
  only the ASCII zero: the four Arabic-Indic digits U+0661 to U+0664 are accepted,
  though none of them is a character of \<^verbatim>\<open>'1'\<close> to \<^verbatim>\<open>'9'\<close>.
\<close>

theorem valid_secret_accepts_arabic_indic_digits:
  "valid_secret [1633, 1634, 1635, 1636] \<and> set [1633, 1634, 1635, 1636 :: nat] \<inter> {49..57} = {}"
  by (simp add: valid_secret_def isdigit_def char_isdigit_def in_ranges_def isdigit_ranges_def)

theorem valid_secret_accepts_arabic_indic_digits_witness:
  "\<exists>s. valid_secret s \<and> set s \<inter> {49..57} = {}"
  using valid_secret_accepts_arabic_indic_digits by blast

section \<open>Scoring\<close>

lemma upt_0_4: "[0..<4] = [0, 1, 2, 3]"
  by (simp add: upt_rec)

lemma length_filter_mono:
  "(\<And>x. x \<in> set xs \<Longrightarrow> P x \<Longrightarrow> Q x) \<Longrightarrow> length (filter P xs) \<le> length (filter Q xs)"
  by (induction xs) auto

text \<open>
  C9. For two strings of four characters \<open>compare_guess\<close> returns, and the positions it
  counts are at most the values: an index where the guess equals the secret is an index
  whose guess character occurs in the secret.
\<close>

theorem compare_guess_positions_le_values:
  assumes s: "length sec = 4" and g: "length gs = 4"
  shows "\<exists>v p. compare_guess sec gs = Inr (v, p) \<and> p \<le> v"
proof -
  have m: "map ((!) gs) [0..<4] = gs"
    using g map_nth[of gs] by simp
  have "length (filter (\<lambda>d. d \<in> set sec) (map ((!) gs) [0..<4]))
      = length (filter (\<lambda>i. gs ! i \<in> set sec) [0..<4])"
    unfolding filter_map by (simp add: comp_def)
  then have v: "length (filter (\<lambda>d. d \<in> set sec) gs)
      = length (filter (\<lambda>i. gs ! i \<in> set sec) [0..<4])"
    unfolding m .
  have "length (filter (\<lambda>i. gs ! i = sec ! i) [0..<4])
      \<le> length (filter (\<lambda>i. gs ! i \<in> set sec) [0..<4])"
    using s by (intro length_filter_mono) auto
  with v show ?thesis
    using s g by (simp add: compare_guess_def)
qed

theorem compare_guess_positions_le_values_witness:
  "compare_guess [49, 50, 51, 52] [49, 50, 52, 51] = Inr (4, 2) \<and> (2 :: nat) \<le> 4"
  using compare_guess_positions_le_values [of "[49, 50, 51, 52]" "[49, 50, 52, 51]"]
  by (simp add: compare_guess_def upt_0_4)

section \<open>The sample match, evaluated\<close>

lemma strip_samples:
  "strip [49, 50, 51, 52] = [49, 50, 51, 52]"
  "strip [53, 54, 55, 56] = [53, 54, 55, 56]"
  "strip [53, 54, 55, 57] = [53, 54, 55, 57]"
  "strip [48, 48, 48, 48] = [48, 48, 48, 48]"
  by (simp_all add: strip_def char_isspace_def in_ranges_def isspace_ranges_def)

lemma valid_secret_samples:
  "valid_secret [49, 50, 51, 52]" "valid_secret [53, 54, 55, 56]"
  "valid_secret [53, 54, 55, 57]" "\<not> valid_secret [48, 48, 48, 48]"
  by (simp_all add: valid_secret_def isdigit_def char_isdigit_def in_ranges_def
      isdigit_ranges_def)

lemma compare_guess_samples:
  "compare_guess [53, 54, 55, 56] [53, 54, 55, 56] = Inr (4, 4)"
  "compare_guess [53, 54, 55, 56] [53, 54, 55, 57] = Inr (3, 3)"
  by (simp_all add: compare_guess_def upt_0_4)

text \<open>The handlers build the two sample games from the empty table.\<close>

lemma joined_reached:
  "games_of (join p2_group (games_of (join p1_group (games_of (newgame p1_group [])))))
     = [(100, joined_game)]"
  by (simp add: newgame_def join_def p1_group_def p2_group_def fresh_game_def
      joined_game_def Let_def)

lemma started_reached:
  "games_of (secret p2_private [[53, 54, 55, 56]]
     (games_of (secret p1_private [[49, 50, 51, 52]] [(100, joined_game)])))
     = [(100, started_game)]"
  by (simp add: secret_def awaiting_def secret_is_none_def secret_set_def p1_private_def
      p2_private_def joined_game_def started_game_def Let_def fun_upd_twist strip_samples
      valid_secret_samples)

lemma joined_game_wf: "wf_game joined_game"
  by (auto simp: wf_game_def joined_game_def)

lemma started_game_wf: "wf_game started_game"
  by (auto simp: wf_game_def started_game_def valid_secret_samples)

lemma joined_game_phase: "phase_of joined_game = AWAITING_SECRETS"
  by (simp add: phase_of_def joined_game_def secret_set_def)

lemma started_game_phase: "phase_of started_game = IN_PROGRESS"
  by (simp add: phase_of_def started_game_def secret_set_def)

section \<open>A guess in a game in progress\<close>

lemma in_progress_players:
  assumes "wf_game g" "phase_of g = IN_PROGRESS"
  obtains p0 p1 where "players g = [p0, p1]" "p0 \<noteq> p1"
proof -
  from assms have "length (players g) = 2" "distinct (players g)"
    by (auto simp: wf_game_def phase_of_def split: if_splits)
  then obtain p0 p1 where "players g = [p0, p1]" "p0 \<noteq> p1"
    by (cases "players g"; cases "tl (players g)") auto
  then show ?thesis using that by blast
qed

lemma in_progress_facts:
  assumes "wf_game g" "phase_of g = IN_PROGRESS"
  shows "\<not> finished g" "list_all (secret_set g) (players g)"
    "turn_index g = 0 \<or> turn_index g = 1" "dom (player_names g) = set (players g)"
  using assms by (auto simp: wf_game_def phase_of_def split: if_splits)

lemma subscript_pair:
  "subscript [p0, p1] 0 = Inr p0" "subscript [p0, p1] 1 = Inr p1"
  by (simp_all add: subscript_def)

text \<open>
  The whole of \<open>guess\<close> for the player whose turn it is, with a well-formed guess, in a
  game in progress: no guard fires, nothing raises, and the branch taken depends on the
  positions only.
\<close>

lemma guess_by_current_player:
  assumes look: "map_of GAMES (chat_id u) = Some g"
    and wf: "wf_game g" and ph: "phase_of g = IN_PROGRESS"
    and grp: "chat_type u \<noteq> Private"
    and cur: "subscript (players g) (turn_index g) = Inr (user_id u)"
    and val: "valid_secret (strip a)"
    and opp: "opp \<in> set (players g)" "opp \<noteq> user_id u"
    and sec: "secrets g opp = Some (Some s)"
    and cmp: "compare_guess s (strip a) = Inr (v, p)"
  shows "\<exists>oname. player_names g opp = Some oname
      \<and> subscript (players g) (1 - turn_index g) = Inr opp
      \<and> guess u [a] GAMES =
          (let result = GuessResult (first_name u) (strip a) v p
                 (map ((!) (strip a)) (filter (\<lambda>i. strip a ! i = s ! i) [0..<4]))
           in if p = 4 then Outcome None [result, Wins (first_name u) oname]
                  (AList.update (chat_id u) (g\<lparr>finished := True\<rparr>) GAMES)
              else Outcome None [result, NowTurn oname]
                  (AList.update (chat_id u) (g\<lparr>turn_index := 1 - turn_index g\<rparr>) GAMES))"
proof -
  obtain p0 p1 where pl: "players g = [p0, p1]" "p0 \<noteq> p1"
    using in_progress_players[OF wf ph] .
  note f = in_progress_facts[OF wf ph]
  from f(4) opp(1) obtain oname where on: "player_names g opp = Some oname"
    by auto
  from f(3) show ?thesis
  proof
    assume t: "turn_index g = 0"
    with cur pl have u0: "user_id u = p0"
      by (simp add: subscript_pair)
    with opp pl have o1: "opp = p1"
      by auto
    show ?thesis
      using look grp val f(1,2) pl t u0 o1 on sec cmp
      by (simp add: guess_def play_def subscript_pair Let_def)
  next
    assume t: "turn_index g = 1"
    with cur pl have u1: "user_id u = p1"
      by (simp add: subscript_pair)
    with opp pl have o0: "opp = p0"
      by auto
    show ?thesis
      using look grp val f(1,2) pl t u1 o0 on sec cmp
      by (simp add: guess_def play_def subscript_pair Let_def)
  qed
qed

lemma started_lookups:
  "players started_game = [1, 2]" "turn_index started_game = 0"
  "secrets started_game 1 = Some (Some [49, 50, 51, 52])"
  "secrets started_game 2 = Some (Some [53, 54, 55, 56])"
  "player_names started_game 1 = Some [65]" "player_names started_game 2 = Some [66]"
  "\<not> finished started_game"
  by (simp_all add: started_game_def)

lemma joined_lookups:
  "players joined_game = [1, 2]" "turn_index joined_game = 0"
  "secrets joined_game 1 = Some None" "secrets joined_game 2 = Some None"
  "player_names joined_game 1 = Some [65]" "player_names joined_game 2 = Some [66]"
  "\<not> finished joined_game"
  by (simp_all add: joined_game_def)

lemma p1_group_fields:
  "chat_type p1_group = Group" "chat_id p1_group = 100" "user_id p1_group = 1"
  "first_name p1_group = [65]"
  by (simp_all add: p1_group_def)

lemma p2_group_fields:
  "chat_type p2_group = Group" "chat_id p2_group = 100" "user_id p2_group = 2"
  "first_name p2_group = [66]"
  by (simp_all add: p2_group_def)

lemma p1_private_fields:
  "chat_type p1_private = Private" "chat_id p1_private = 1" "user_id p1_private = 1"
  "first_name p1_private = [65]"
  by (simp_all add: p1_private_def)

text \<open>Four guesses in the started sample game and two in the joined one.\<close>

lemma started_winning_guess:
  "guess p1_group [[53, 54, 55, 56]] [(100, started_game)] =
     Outcome None [GuessResult [65] [53, 54, 55, 56] 4 4 [53, 54, 55, 56], Wins [65] [66]]
       [(100, started_game\<lparr>finished := True\<rparr>)]"
  by (simp add: guess_def play_def p1_group_fields started_lookups strip_samples
      valid_secret_samples compare_guess_samples secret_set_def subscript_def upt_0_4 Let_def)

lemma started_continuing_guess:
  "guess p1_group [[53, 54, 55, 57]] [(100, started_game)] =
     Outcome None [GuessResult [65] [53, 54, 55, 57] 3 3 [53, 54, 55], NowTurn [66]]
       [(100, started_game\<lparr>turn_index := 1\<rparr>)]"
  by (simp add: guess_def play_def p1_group_fields started_lookups strip_samples
      valid_secret_samples compare_guess_samples secret_set_def subscript_def upt_0_4 Let_def)

lemma started_out_of_turn_guess:
  "guess p2_group [[49, 50, 51, 52]] [(100, started_game)] =
     Outcome None [NotYourTurn [65]] [(100, started_game)]"
  by (simp add: guess_def p2_group_fields started_lookups strip_samples
      valid_secret_samples secret_set_def subscript_def Let_def)

lemma started_out_of_turn_malformed_guess:
  "guess p2_group [[48, 48, 48, 48]] [(100, started_game)] =
     Outcome None [InvalidGuess] [(100, started_game)]"
  by (simp add: guess_def p2_group_fields started_lookups strip_samples
      valid_secret_samples Let_def)

lemma joined_guess:
  "guess p1_group [[53, 54, 55, 56]] [(100, joined_game)] =
     Outcome None [WaitingForSecrets] [(100, joined_game)]"
  by (simp add: guess_def p1_group_fields joined_lookups strip_samples
      valid_secret_samples secret_set_def Let_def)

lemma joined_malformed_guess:
  "guess p1_group [[48, 48, 48, 48]] [(100, joined_game)] =
     Outcome None [InvalidGuess] [(100, joined_game)]"
  by (simp add: guess_def p1_group_fields joined_lookups strip_samples
      valid_secret_samples Let_def)

section \<open>The winning guess\<close>

text \<open>
  C2, as amended. In a game in progress, when the well-formed guess of the player whose
  turn it is scores four positions against the opponent's secret, the handler returns
  normally with the guess result followed by the win announcement, which names the
  guessing user and the opponent; the game stored under the chat is then the old game
  with \<open>finished\<close> set and nothing else changed, and it is in the phase FINISHED. The
  game record has five fields and none of them is a winner.
\<close>

theorem winning_guess_finishes:
  assumes "map_of GAMES (chat_id u) = Some g"
    and "wf_game g" and "phase_of g = IN_PROGRESS"
    and "chat_type u \<noteq> Private"
    and "subscript (players g) (turn_index g) = Inr (user_id u)"
    and "valid_secret (strip a)"
    and "opp \<in> set (players g)" and "opp \<noteq> user_id u"
    and "secrets g opp = Some (Some s)"
    and "compare_guess s (strip a) = Inr (v, 4)"
  shows "\<exists>oname.
      guess u [a] GAMES =
        Outcome None
          [GuessResult (first_name u) (strip a) v 4
             (map ((!) (strip a)) (filter (\<lambda>i. strip a ! i = s ! i) [0..<4])),
           Wins (first_name u) oname]
          (AList.update (chat_id u) (g\<lparr>finished := True\<rparr>) GAMES)
      \<and> player_names g opp = Some oname
      \<and> map_of (AList.update (chat_id u) (g\<lparr>finished := True\<rparr>) GAMES) (chat_id u)
          = Some (g\<lparr>finished := True\<rparr>)
      \<and> phase_of (g\<lparr>finished := True\<rparr>) = FINISHED"
proof -
  from guess_by_current_player[OF assms] obtain oname where
    "player_names g opp = Some oname"
    "guess u [a] GAMES =
       Outcome None [GuessResult (first_name u) (strip a) v 4
           (map ((!) (strip a)) (filter (\<lambda>i. strip a ! i = s ! i) [0..<4])),
         Wins (first_name u) oname]
         (AList.update (chat_id u) (g\<lparr>finished := True\<rparr>) GAMES)"
    by (auto simp: Let_def)
  moreover have "phase_of (g\<lparr>finished := True\<rparr>) = FINISHED"
    by (simp add: phase_of_def)
  moreover have "map_of (AList.update (chat_id u) (g\<lparr>finished := True\<rparr>) GAMES) (chat_id u)
      = Some (g\<lparr>finished := True\<rparr>)"
    by (simp add: update_conv')
  ultimately show ?thesis
    by blast
qed

theorem winning_guess_finishes_witness:
  "wf_game started_game \<and> phase_of started_game = IN_PROGRESS
   \<and> compare_guess [53, 54, 55, 56] (strip [53, 54, 55, 56]) = Inr (4, 4)
   \<and> guess p1_group [[53, 54, 55, 56]] [(100, started_game)] =
        Outcome None [GuessResult [65] [53, 54, 55, 56] 4 4 [53, 54, 55, 56], Wins [65] [66]]
          [(100, started_game\<lparr>finished := True\<rparr>)]
   \<and> phase_of (started_game\<lparr>finished := True\<rparr>) = FINISHED"
proof -
  have "\<exists>oname.
      guess p1_group [[53, 54, 55, 56]] [(100, started_game)] =
        Outcome None
          [GuessResult (first_name p1_group) (strip [53, 54, 55, 56]) 4 4
             (map ((!) (strip [53, 54, 55, 56]))
                (filter (\<lambda>i. strip [53, 54, 55, 56] ! i = [53, 54, 55, 56] ! i) [0..<4])),
           Wins (first_name p1_group) oname]
          (AList.update (chat_id p1_group) (started_game\<lparr>finished := True\<rparr>)
             [(100, started_game)])
      \<and> player_names started_game 2 = Some oname
      \<and> map_of (AList.update (chat_id p1_group) (started_game\<lparr>finished := True\<rparr>)
            [(100, started_game)]) (chat_id p1_group)
          = Some (started_game\<lparr>finished := True\<rparr>)
      \<and> phase_of (started_game\<lparr>finished := True\<rparr>) = FINISHED"
    by (rule winning_guess_finishes)
      (simp_all add: p1_group_fields started_lookups started_game_wf started_game_phase
        strip_samples valid_secret_samples compare_guess_samples subscript_def)
  then show ?thesis
    by (auto simp: p1_group_fields started_lookups started_game_wf started_game_phase
        strip_samples compare_guess_samples upt_0_4)
qed

text \<open>
  C2 as stated has the winning guess set a winner of the session to the guessing player.
  In the sample match the winning guess leaves a game that differs from the game before
  in \<open>finished\<close> only: the five fields are all there is, and seat, names and secrets are
  as they were.
\<close>

theorem winning_guess_writes_only_finished:
  "guess p1_group [[53, 54, 55, 56]]
     [(100, \<lparr>players = [1, 2], player_names = [1 \<mapsto> [65], 2 \<mapsto> [66]],
             secrets = [1 \<mapsto> Some [49, 50, 51, 52], 2 \<mapsto> Some [53, 54, 55, 56]],
             turn_index = 0, finished = False\<rparr>)] =
     Outcome None [GuessResult [65] [53, 54, 55, 56] 4 4 [53, 54, 55, 56], Wins [65] [66]]
       [(100, \<lparr>players = [1, 2], player_names = [1 \<mapsto> [65], 2 \<mapsto> [66]],
               secrets = [1 \<mapsto> Some [49, 50, 51, 52], 2 \<mapsto> Some [53, 54, 55, 56]],
               turn_index = 0, finished = True\<rparr>)]"
  using started_winning_guess by (simp add: started_game_def)

text \<open>
  C10. On a winning guess the games table changes at the chat's key only, and the game
  there changes in \<open>finished\<close> only: players, names, secrets and turn index are the old
  ones, and the turn index still points at the seat of the player who won.
\<close>

theorem winning_guess_frame:
  assumes "map_of GAMES (chat_id u) = Some g"
    and "wf_game g" and "phase_of g = IN_PROGRESS"
    and "chat_type u \<noteq> Private"
    and "subscript (players g) (turn_index g) = Inr (user_id u)"
    and "valid_secret (strip a)"
    and "opp \<in> set (players g)" and "opp \<noteq> user_id u"
    and "secrets g opp = Some (Some s)"
    and "compare_guess s (strip a) = Inr (v, 4)"
  shows "\<exists>g'. games_of (guess u [a] GAMES) = AList.update (chat_id u) g' GAMES
      \<and> g' = g\<lparr>finished := True\<rparr>
      \<and> players g' = players g \<and> player_names g' = player_names g
      \<and> secrets g' = secrets g \<and> turn_index g' = turn_index g
      \<and> subscript (players g') (turn_index g') = Inr (user_id u)"
proof -
  from guess_by_current_player[OF assms]
  have "games_of (guess u [a] GAMES) = AList.update (chat_id u) (g\<lparr>finished := True\<rparr>) GAMES"
    by (auto simp: Let_def)
  with assms(5) show ?thesis
    by simp
qed

theorem winning_guess_frame_witness:
  "wf_game started_game \<and> phase_of started_game = IN_PROGRESS
   \<and> games_of (guess p1_group [[53, 54, 55, 56]] [(100, started_game)])
       = [(100, started_game\<lparr>finished := True\<rparr>)]
   \<and> turn_index (started_game\<lparr>finished := True\<rparr>) = 0"
proof -
  have "\<exists>g'. games_of (guess p1_group [[53, 54, 55, 56]] [(100, started_game)])
        = AList.update (chat_id p1_group) g' [(100, started_game)]
      \<and> g' = started_game\<lparr>finished := True\<rparr>
      \<and> players g' = players started_game \<and> player_names g' = player_names started_game
      \<and> secrets g' = secrets started_game \<and> turn_index g' = turn_index started_game
      \<and> subscript (players g') (turn_index g') = Inr (user_id p1_group)"
    by (rule winning_guess_frame[where s = "[53, 54, 55, 56]" and opp = 2 and v = 4])
      (simp_all add: p1_group_fields started_lookups started_game_wf started_game_phase
        strip_samples valid_secret_samples compare_guess_samples subscript_def)
  then show ?thesis
    by (simp add: p1_group_fields started_lookups started_game_wf started_game_phase)
qed

section \<open>The turn\<close>

text \<open>
  C8. In a game in progress, a well-formed guess of the player whose turn it is that
  scores fewer than four positions returns normally with the guess result followed by
  the announcement of the next turn, which names the opponent; the game stored under the
  chat is the old one with \<open>turn_index\<close> replaced by \<open>1 - turn_index\<close>, which is the
  opponent's seat, and nothing else in the table changes.
\<close>

theorem continuing_guess_flips_turn:
  assumes "map_of GAMES (chat_id u) = Some g"
    and "wf_game g" and "phase_of g = IN_PROGRESS"
    and "chat_type u \<noteq> Private"
    and "subscript (players g) (turn_index g) = Inr (user_id u)"
    and "valid_secret (strip a)"
    and "opp \<in> set (players g)" and "opp \<noteq> user_id u"
    and "secrets g opp = Some (Some s)"
    and "compare_guess s (strip a) = Inr (v, p)"
    and "p < 4"
  shows "\<exists>digits oname.
      guess u [a] GAMES =
        Outcome None [GuessResult (first_name u) (strip a) v p digits, NowTurn oname]
          (AList.update (chat_id u) (g\<lparr>turn_index := 1 - turn_index g\<rparr>) GAMES)
      \<and> subscript (players g) (1 - turn_index g) = Inr opp
      \<and> player_names g opp = Some oname"
proof -
  from guess_by_current_player[OF assms(1-10)] assms(11) show ?thesis
    by (auto simp: Let_def)
qed

theorem continuing_guess_flips_turn_witness:
  "wf_game started_game \<and> phase_of started_game = IN_PROGRESS
   \<and> compare_guess [53, 54, 55, 56] (strip [53, 54, 55, 57]) = Inr (3, 3)
   \<and> (\<exists>digits. guess p1_group [[53, 54, 55, 57]] [(100, started_game)] =
        Outcome None [GuessResult [65] [53, 54, 55, 57] 3 3 digits, NowTurn [66]]
          [(100, started_game\<lparr>turn_index := 1\<rparr>)])
   \<and> subscript (players started_game) 1 = Inr 2"
proof -
  have "\<exists>digits oname.
      guess p1_group [[53, 54, 55, 57]] [(100, started_game)] =
        Outcome None [GuessResult (first_name p1_group) (strip [53, 54, 55, 57]) 3 3 digits,
          NowTurn oname]
          (AList.update (chat_id p1_group)
             (started_game\<lparr>turn_index := 1 - turn_index started_game\<rparr>) [(100, started_game)])
      \<and> subscript (players started_game) (1 - turn_index started_game) = Inr 2
      \<and> player_names started_game 2 = Some oname"
    by (rule continuing_guess_flips_turn[where s = "[53, 54, 55, 56]"])
      (simp_all add: p1_group_fields started_lookups started_game_wf started_game_phase
        strip_samples valid_secret_samples compare_guess_samples subscript_def)
  then show ?thesis
    by (auto simp: p1_group_fields started_lookups started_game_wf started_game_phase
        strip_samples compare_guess_samples)
qed

text \<open>
  C4, as amended. In a game in progress, take a guess sent in the group chat by the
  participant whose seat is not the turn index. If the guess is well-formed it is
  answered with the not-your-turn reply, which names the player whose turn it is; if it
  is malformed it is answered with the invalid-guess reply. Either way the games table
  is unchanged.
\<close>

theorem out_of_turn_guess_rejected:
  assumes look: "map_of GAMES (chat_id u) = Some g"
    and wf: "wf_game g" and ph: "phase_of g = IN_PROGRESS"
    and grp: "chat_type u \<noteq> Private"
    and seat: "i < length (players g)" "players g ! i = user_id u" "int i \<noteq> turn_index g"
  shows "(valid_secret (strip a) \<longrightarrow>
            (\<exists>cur cur_name. subscript (players g) (turn_index g) = Inr cur
               \<and> player_names g cur = Some cur_name
               \<and> guess u [a] GAMES = Outcome None [NotYourTurn cur_name] GAMES))
      \<and> (\<not> valid_secret (strip a) \<longrightarrow>
            guess u [a] GAMES = Outcome None [InvalidGuess] GAMES)"
proof (intro conjI impI)
  assume val: "valid_secret (strip a)"
  obtain p0 p1 where pl: "players g = [p0, p1]" "p0 \<noteq> p1"
    using in_progress_players[OF wf ph] .
  note f = in_progress_facts[OF wf ph]
  from seat(1) pl have i: "i = 0 \<or> i = 1"
    by auto
  from f(4) pl have "p0 \<in> dom (player_names g)" "p1 \<in> dom (player_names g)"
    by simp_all
  then obtain n0 n1 where names: "player_names g p0 = Some n0" "player_names g p1 = Some n1"
    by blast
  from f(3) show "\<exists>cur cur_name. subscript (players g) (turn_index g) = Inr cur
      \<and> player_names g cur = Some cur_name
      \<and> guess u [a] GAMES = Outcome None [NotYourTurn cur_name] GAMES"
  proof
    assume t: "turn_index g = 0"
    with i seat(3) have "i = 1"
      by auto
    with seat(2) pl have "user_id u = p1"
      by simp
    then show ?thesis
      using look grp val f(1,2) pl t names
      by (simp add: guess_def subscript_pair Let_def)
  next
    assume t: "turn_index g = 1"
    with i seat(3) have "i = 0"
      by auto
    with seat(2) pl have "user_id u = p0"
      by simp
    then show ?thesis
      using look grp val f(1,2) pl t names
      by (simp add: guess_def subscript_pair Let_def)
  qed
next
  assume inv: "\<not> valid_secret (strip a)"
  from seat(1,2) have "user_id u \<in> set (players g)"
    by (metis nth_mem)
  with look grp inv in_progress_facts(1)[OF wf ph]
  show "guess u [a] GAMES = Outcome None [InvalidGuess] GAMES"
    by (simp add: guess_def Let_def)
qed

theorem out_of_turn_guess_rejected_witness:
  "wf_game started_game \<and> phase_of started_game = IN_PROGRESS
   \<and> players started_game ! 1 = user_id p2_group \<and> turn_index started_game = 0
   \<and> guess p2_group [[49, 50, 51, 52]] [(100, started_game)]
       = Outcome None [NotYourTurn [65]] [(100, started_game)]
   \<and> guess p2_group [[48, 48, 48, 48]] [(100, started_game)]
       = Outcome None [InvalidGuess] [(100, started_game)]"
proof -
  have h: "map_of [(100, started_game)] (chat_id p2_group) = Some started_game"
    "chat_type p2_group \<noteq> Private" "1 < length (players started_game)"
    "players started_game ! 1 = user_id p2_group" "int 1 \<noteq> turn_index started_game"
    by (simp_all add: p2_group_fields started_lookups)
  note t = out_of_turn_guess_rejected[OF h(1) started_game_wf started_game_phase h(2-5)]
  from t[of "[49, 50, 51, 52]"] t[of "[48, 48, 48, 48]"] show ?thesis
    by (auto simp: p2_group_fields started_lookups started_game_wf started_game_phase
        strip_samples valid_secret_samples subscript_def)
qed

text \<open>
  C4 as stated covers every guess of that participant. A malformed guess is rejected as
  invalid before the turn is looked at: in the started sample game it is the turn of
  seat 0, and the guess \<^verbatim>\<open>"0000"\<close> of the player in seat 1 gets the invalid-guess reply.
\<close>

theorem out_of_turn_malformed_guess_is_invalid:
  "phase_of started_game = IN_PROGRESS
   \<and> players started_game ! 1 = user_id p2_group \<and> turn_index started_game = 0
   \<and> guess p2_group [[48, 48, 48, 48]] [(100, started_game)]
       = Outcome None [InvalidGuess] [(100, started_game)]"
  using started_out_of_turn_malformed_guess
  by (simp add: started_game_phase started_lookups p2_group_fields)

section \<open>Guessing before the game is in progress\<close>

text \<open>
  C5, as amended. Take a guess with one argument sent in the group chat of a stored
  game. If the game is finished the reply is the no-active-game one. If it is not
  finished: a sender who is not a player gets the not-a-player reply; a player's
  malformed guess gets the invalid-guess reply; and a player's well-formed guess, while
  some player of the game holds no secret, gets the waiting-for-secrets reply. In all
  four cases the games table is unchanged.
\<close>

theorem guess_before_secrets_waits:
  assumes look: "map_of GAMES (chat_id u) = Some g"
    and grp: "chat_type u \<noteq> Private"
  shows "(finished g \<longrightarrow> guess u [a] GAMES = Outcome None [NoActiveGameInGroup] GAMES)
      \<and> (\<not> finished g \<and> user_id u \<notin> set (players g) \<longrightarrow>
            guess u [a] GAMES = Outcome None [NotAPlayer] GAMES)
      \<and> (\<not> finished g \<and> user_id u \<in> set (players g) \<and> \<not> valid_secret (strip a) \<longrightarrow>
            guess u [a] GAMES = Outcome None [InvalidGuess] GAMES)
      \<and> (\<not> finished g \<and> user_id u \<in> set (players g) \<and> valid_secret (strip a)
          \<and> \<not> list_all (secret_set g) (players g) \<longrightarrow>
            guess u [a] GAMES = Outcome None [WaitingForSecrets] GAMES)"
  using look grp by (simp add: guess_def Let_def)

theorem guess_before_secrets_waits_witness:
  "phase_of joined_game = AWAITING_SECRETS
   \<and> \<not> list_all (secret_set joined_game) (players joined_game)
   \<and> guess p1_group [[53, 54, 55, 56]] [(100, joined_game)]
       = Outcome None [WaitingForSecrets] [(100, joined_game)]
   \<and> guess p1_group [[48, 48, 48, 48]] [(100, joined_game)]
       = Outcome None [InvalidGuess] [(100, joined_game)]
   \<and> guess \<lparr>chat_type = Group, chat_id = 100, user_id = 3, first_name = [67]\<rparr>
         [[53, 54, 55, 56]] [(100, joined_game)]
       = Outcome None [NotAPlayer] [(100, joined_game)]
   \<and> guess p1_group [[53, 54, 55, 56]] [(100, joined_game\<lparr>finished := True\<rparr>)]
       = Outcome None [NoActiveGameInGroup] [(100, joined_game\<lparr>finished := True\<rparr>)]"
proof -
  let ?p3 = "\<lparr>chat_type = Group, chat_id = 100, user_id = 3, first_name = [67]\<rparr>"
  have n: "\<not> list_all (secret_set joined_game) (players joined_game)"
    by (simp add: joined_lookups secret_set_def)
  have l1: "map_of [(100, joined_game)] (chat_id p1_group) = Some joined_game"
    and l3: "map_of [(100, joined_game)] (chat_id ?p3) = Some joined_game"
    and lf: "map_of [(100, joined_game\<lparr>finished := True\<rparr>)] (chat_id p1_group)
        = Some (joined_game\<lparr>finished := True\<rparr>)"
    and g1: "chat_type p1_group \<noteq> Private" and g3: "chat_type ?p3 \<noteq> Private"
    by (simp_all add: p1_group_fields)
  from guess_before_secrets_waits[OF l1 g1, of "[53, 54, 55, 56]"]
    guess_before_secrets_waits[OF l1 g1, of "[48, 48, 48, 48]"]
    guess_before_secrets_waits[OF l3 g3, of "[53, 54, 55, 56]"]
    guess_before_secrets_waits[OF lf g1, of "[53, 54, 55, 56]"]
    n
  show ?thesis
    by (simp add: p1_group_fields joined_lookups joined_game_phase strip_samples
        valid_secret_samples)
qed

text \<open>
  C5 as stated has every guess outside the phase IN_PROGRESS fail as not in progress.
  The guards for membership and for a well-formed guess come first: in the joined sample
  game, where no secret is set, the guess \<^verbatim>\<open>"0000"\<close> of a player gets the invalid-guess
  reply.
\<close>

theorem malformed_guess_before_secrets_is_invalid:
  "phase_of joined_game = AWAITING_SECRETS
   \<and> guess p1_group [[48, 48, 48, 48]] [(100, joined_game)]
       = Outcome None [InvalidGuess] [(100, joined_game)]"
  using joined_malformed_guess by (simp add: joined_game_phase)

section \<open>What each handler does to the games table\<close>

lemma play_games:
  "games_of (play u guess_num g GAMES) = GAMES
   \<or> (\<exists>opp \<in> set (players g). opp \<noteq> user_id u)
     \<and> (games_of (play u guess_num g GAMES) = AList.update (chat_id u) (g\<lparr>finished := True\<rparr>) GAMES
        \<or> games_of (play u guess_num g GAMES)
            = AList.update (chat_id u) (g\<lparr>turn_index := 1 - turn_index g\<rparr>) GAMES)"
proof (cases "filter (\<lambda>pid. pid \<noteq> user_id u) (players g)")
  case Nil
  then show ?thesis
    by (simp add: play_def)
next
  case (Cons opp rest)
  then have "opp \<in> set (filter (\<lambda>pid. pid \<noteq> user_id u) (players g))"
    by simp
  then have "\<exists>opp \<in> set (players g). opp \<noteq> user_id u"
    by auto
  then show ?thesis
    using Cons
    by (simp add: play_def Let_def split: option.split sum.split prod.split)
qed

lemma guess_games:
  "games_of (guess u args GAMES) = GAMES
   \<or> (\<exists>g. map_of GAMES (chat_id u) = Some g \<and> \<not> finished g
        \<and> user_id u \<in> set (players g) \<and> (\<exists>opp \<in> set (players g). opp \<noteq> user_id u)
        \<and> (games_of (guess u args GAMES) = AList.update (chat_id u) (g\<lparr>finished := True\<rparr>) GAMES
           \<or> games_of (guess u args GAMES)
               = AList.update (chat_id u) (g\<lparr>turn_index := 1 - turn_index g\<rparr>) GAMES))"
  using play_games[of u "strip (hd args)" _ GAMES]
  by (auto simp: guess_def Let_def split: option.split sum.split)

lemma join_games:
  "games_of (join u GAMES) = GAMES
   \<or> (\<exists>g. map_of GAMES (chat_id u) = Some g \<and> \<not> finished g
        \<and> user_id u \<notin> set (players g) \<and> length (players g) < 2
        \<and> games_of (join u GAMES)
            = AList.update (chat_id u)
                (g\<lparr>players := players g @ [user_id u],
                   player_names := (player_names g)(user_id u \<mapsto> first_name u),
                   secrets := (secrets g)(user_id u \<mapsto> None)\<rparr>) GAMES)"
  by (auto simp: join_def Let_def split: option.split)

lemma secret_games:
  "games_of (secret u args GAMES) = GAMES \<and> (\<forall>gid. SecretSaved gid \<notin> set (replies (secret u args GAMES)))
   \<or> (\<exists>gid g. (gid, g) \<in> set GAMES \<and> awaiting (user_id u) (gid, g)
        \<and> valid_secret (strip (hd args))
        \<and> (\<forall>gid'. SecretSaved gid' \<in> set (replies (secret u args GAMES)) \<longrightarrow> gid' = gid)
        \<and> games_of (secret u args GAMES)
            = AList.update gid (g\<lparr>secrets := (secrets g)(user_id u \<mapsto> Some (strip (hd args)))\<rparr>) GAMES)"
proof (cases "filter (awaiting (user_id u)) GAMES")
  case Nil
  then show ?thesis
    by (simp add: secret_def Let_def)
next
  case (Cons e rest)
  then have "e \<in> set (filter (awaiting (user_id u)) GAMES)"
    by simp
  then have e: "e \<in> set GAMES" "awaiting (user_id u) e"
    by auto
  obtain gid g where eg: "e = (gid, g)"
    by (cases e)
  show ?thesis
  proof (cases "chat_type u \<noteq> Private \<or> length args \<noteq> 1 \<or> \<not> valid_secret (strip (hd args))")
    case True
    then show ?thesis
      by (auto simp: secret_def Let_def)
  next
    case False
    then have "(gid, g) \<in> set GAMES \<and> awaiting (user_id u) (gid, g)
        \<and> valid_secret (strip (hd args))
        \<and> (\<forall>gid'. SecretSaved gid' \<in> set (replies (secret u args GAMES)) \<longrightarrow> gid' = gid)
        \<and> games_of (secret u args GAMES)
            = AList.update gid (g\<lparr>secrets := (secrets g)(user_id u \<mapsto> Some (strip (hd args)))\<rparr>) GAMES"
      using Cons e eg
      by (simp add: secret_def Let_def split: list.split option.split)
    then show ?thesis
      by blast
  qed
qed


section \<open>Finished games\<close>

text \<open>
  C3, as amended. For a finished game stored under a chat: a guess and a join sent in
  that group chat get the no-active-game reply, whatever their arguments, and leave the
  games table unchanged; and \<open>secret\<close>, whoever sends it and with whatever arguments,
  leaves the finished game as it is. A secret sent privately with one argument is
  answered, with the table unchanged, by the invalid-secret reply when it is malformed,
  and by the no-game-awaiting reply when it is well-formed and no game of the table is
  unfinished, has the sender as a player and holds no secret of the sender.
\<close>

theorem finished_game_rejects:
  assumes look: "map_of GAMES k = Some g" and fin: "finished g"
    and dist: "distinct (map fst GAMES)"
  shows "(chat_type u \<noteq> Private \<and> chat_id u = k \<longrightarrow>
            guess u args GAMES = Outcome None [NoActiveGameInGroup] GAMES
          \<and> join u GAMES = Outcome None [NoActiveGameHere] GAMES)
      \<and> map_of (games_of (secret u args GAMES)) k = Some g
      \<and> (chat_type u = Private \<and> \<not> valid_secret (strip a) \<longrightarrow>
            secret u [a] GAMES = Outcome None [InvalidSecret] GAMES)
      \<and> (chat_type u = Private \<and> valid_secret (strip a)
          \<and> (\<forall>e \<in> set GAMES. \<not> awaiting (user_id u) e) \<longrightarrow>
            secret u [a] GAMES = Outcome None [NoGameAwaitingSecret] GAMES)"
proof (intro conjI impI)
  assume "chat_type u \<noteq> Private \<and> chat_id u = k"
  with look fin show "guess u args GAMES = Outcome None [NoActiveGameInGroup] GAMES"
    by (simp add: guess_def)
next
  assume "chat_type u \<noteq> Private \<and> chat_id u = k"
  with look fin show "join u GAMES = Outcome None [NoActiveGameHere] GAMES"
    by (simp add: join_def)
next
  from secret_games[of u args GAMES]
  show "map_of (games_of (secret u args GAMES)) k = Some g"
  proof (elim disjE exE conjE)
    assume "games_of (secret u args GAMES) = GAMES"
    with look show ?thesis
      by simp
  next
    fix gid g0
    assume mem: "(gid, g0) \<in> set GAMES" and aw: "awaiting (user_id u) (gid, g0)"
      and upd: "games_of (secret u args GAMES)
        = AList.update gid (g0\<lparr>secrets := (secrets g0)(user_id u \<mapsto> Some (strip (hd args)))\<rparr>) GAMES"
    from mem dist have "map_of GAMES gid = Some g0"
      by simp
    with look fin aw have "gid \<noteq> k"
      by (auto simp: awaiting_def)
    with upd look show ?thesis
      by (simp add: update_conv')
  qed
next
  assume "chat_type u = Private \<and> \<not> valid_secret (strip a)"
  then show "secret u [a] GAMES = Outcome None [InvalidSecret] GAMES"
    by (simp add: secret_def Let_def)
next
  assume a: "chat_type u = Private \<and> valid_secret (strip a)
      \<and> (\<forall>e \<in> set GAMES. \<not> awaiting (user_id u) e)"
  then have "filter (awaiting (user_id u)) GAMES = []"
    by (simp add: filter_empty_conv)
  with a show "secret u [a] GAMES = Outcome None [NoGameAwaitingSecret] GAMES"
    by (simp add: secret_def Let_def)
qed

theorem finished_game_rejects_witness:
  "finished (started_game\<lparr>finished := True\<rparr>)
   \<and> guess p1_group [[53, 54, 55, 56]] [(100, started_game\<lparr>finished := True\<rparr>)]
       = Outcome None [NoActiveGameInGroup] [(100, started_game\<lparr>finished := True\<rparr>)]
   \<and> join p1_group [(100, started_game\<lparr>finished := True\<rparr>)]
       = Outcome None [NoActiveGameHere] [(100, started_game\<lparr>finished := True\<rparr>)]
   \<and> secret p1_private [[53, 54, 55, 56]] [(100, started_game\<lparr>finished := True\<rparr>)]
       = Outcome None [NoGameAwaitingSecret] [(100, started_game\<lparr>finished := True\<rparr>)]
   \<and> secret p1_private [[48, 48, 48, 48]] [(100, started_game\<lparr>finished := True\<rparr>)]
       = Outcome None [InvalidSecret] [(100, started_game\<lparr>finished := True\<rparr>)]"
proof -
  let ?G = "[(100, started_game\<lparr>finished := True\<rparr>)]"
  have "map_of ?G 100 = Some (started_game\<lparr>finished := True\<rparr>)"
    "finished (started_game\<lparr>finished := True\<rparr>)" "distinct (map fst ?G)"
    by simp_all
  from finished_game_rejects[OF this, of p1_group "[[53, 54, 55, 56]]" "[53, 54, 55, 56]"]
    finished_game_rejects[OF this, of p1_private "[[53, 54, 55, 56]]" "[53, 54, 55, 56]"]
    finished_game_rejects[OF this, of p1_private "[[48, 48, 48, 48]]" "[48, 48, 48, 48]"]
  show ?thesis
    by (simp add: p1_group_fields p1_private_fields strip_samples valid_secret_samples
        awaiting_def)
qed

text \<open>
  C3 as stated has \<open>secret\<close> fail on a finished game with the same kind of failure as
  \<open>guess\<close> and \<open>join\<close>. The secret is validated before any game is looked at: a
  malformed secret sent by a player of a finished game gets the invalid-secret reply.
\<close>

theorem malformed_secret_after_finish_is_invalid:
  "phase_of (started_game\<lparr>finished := True\<rparr>) = FINISHED
   \<and> secret p1_private [[48, 48, 48, 48]] [(100, started_game\<lparr>finished := True\<rparr>)]
       = Outcome None [InvalidSecret] [(100, started_game\<lparr>finished := True\<rparr>)]"
  by (simp add: phase_of_def secret_def p1_private_fields strip_samples valid_secret_samples)

section \<open>Creating and cancelling\<close>

text \<open>
  C6. In a group chat: \<open>newgame\<close> while an unfinished game is stored under the chat gets
  the already-active reply and leaves the table unchanged, so a second \<open>newgame\<close> in a
  row always does; when the stored game is finished, and after \<open>cancel\<close>, \<open>newgame\<close>
  succeeds and stores the fresh game, which is in the phase FORMING, under the chat.
\<close>

theorem newgame_one_active_game:
  assumes grp: "chat_type u \<noteq> Private"
  shows "(\<forall>g. map_of GAMES (chat_id u) = Some g \<and> \<not> finished g \<longrightarrow>
            newgame u GAMES = Outcome None [GameAlreadyActive] GAMES)
      \<and> newgame u (games_of (newgame u GAMES))
          = Outcome None [GameAlreadyActive] (games_of (newgame u GAMES))
      \<and> (\<forall>g. map_of GAMES (chat_id u) = Some g \<and> finished g \<longrightarrow>
            newgame u GAMES
              = Outcome None [NewGameCreated] (AList.update (chat_id u) fresh_game GAMES))
      \<and> newgame u (games_of (cancel u GAMES))
          = Outcome None [NewGameCreated]
              (AList.update (chat_id u) fresh_game (games_of (cancel u GAMES)))
      \<and> map_of (AList.update (chat_id u) fresh_game GAMES) (chat_id u) = Some fresh_game
      \<and> phase_of fresh_game = FORMING"
proof -
  have twice: "newgame u (games_of (newgame u GAMES))
      = Outcome None [GameAlreadyActive] (games_of (newgame u GAMES))"
    using grp
    by (cases "map_of GAMES (chat_id u)")
      (simp_all add: newgame_def update_conv' fresh_game_def)
  have "map_of (games_of (cancel u GAMES)) (chat_id u) = None"
    using grp by (simp add: cancel_def delete_conv')
  then have after_cancel: "newgame u (games_of (cancel u GAMES))
      = Outcome None [NewGameCreated]
          (AList.update (chat_id u) fresh_game (games_of (cancel u GAMES)))"
    using grp by (simp add: newgame_def)
  show ?thesis
    using grp twice after_cancel
    by (simp add: newgame_def update_conv' phase_of_def fresh_game_def)
qed

theorem newgame_one_active_game_witness:
  "newgame p1_group [(100, started_game)] = Outcome None [GameAlreadyActive] [(100, started_game)]
   \<and> newgame p1_group [(100, started_game\<lparr>finished := True\<rparr>)]
       = Outcome None [NewGameCreated] [(100, fresh_game)]
   \<and> games_of (cancel p1_group [(100, started_game)]) = []
   \<and> newgame p1_group (games_of (cancel p1_group [(100, started_game)]))
       = Outcome None [NewGameCreated] [(100, fresh_game)]"
proof -
  have grp: "chat_type p1_group \<noteq> Private"
    by (simp add: p1_group_fields)
  have c: "games_of (cancel p1_group [(100, started_game)]) = []"
    by (simp add: cancel_def p1_group_fields)
  from newgame_one_active_game[OF grp, of "[(100, started_game)]"]
    newgame_one_active_game[OF grp, of "[(100, started_game\<lparr>finished := True\<rparr>)]"]
  show ?thesis
    by (simp add: c p1_group_fields started_lookups)
qed

section \<open>Committed secrets\<close>

text \<open>
  C7. Once a player of a game holds a secret, the game stored under that chat holds the
  same secret for that player after any \<open>secret\<close>, \<open>guess\<close> or \<open>join\<close>, whoever sends it
  and with whatever arguments. A further \<open>secret\<close> of that player leaves that game as it
  is and saves nothing for that chat; when no other game of the table awaits a secret
  of the player, it saves nothing at all and the table is unchanged.
\<close>

theorem committed_secret_is_kept:
  assumes dist: "distinct (map fst GAMES)"
    and look: "map_of GAMES k = Some g"
    and pl: "p \<in> set (players g)"
    and sec: "secrets g p = Some (Some s)"
  shows "(\<exists>g'. map_of (games_of (secret u args GAMES)) k = Some g' \<and> secrets g' p = Some (Some s))
      \<and> (\<exists>g'. map_of (games_of (guess u args GAMES)) k = Some g' \<and> secrets g' p = Some (Some s))
      \<and> (\<exists>g'. map_of (games_of (join u GAMES)) k = Some g' \<and> secrets g' p = Some (Some s))
      \<and> (user_id u = p \<longrightarrow>
            map_of (games_of (secret u args GAMES)) k = Some g
          \<and> SecretSaved k \<notin> set (replies (secret u args GAMES)))
      \<and> (user_id u = p \<and> filter (awaiting p) GAMES = [] \<longrightarrow>
            games_of (secret u args GAMES) = GAMES
          \<and> (\<forall>gid. SecretSaved gid \<notin> set (replies (secret u args GAMES))))"
proof (intro conjI impI)
  from secret_games[of u args GAMES]
  show "\<exists>g'. map_of (games_of (secret u args GAMES)) k = Some g' \<and> secrets g' p = Some (Some s)"
  proof (elim disjE exE conjE)
    assume "games_of (secret u args GAMES) = GAMES"
    with look sec show ?thesis
      by simp
  next
    fix gid g0
    assume mem: "(gid, g0) \<in> set GAMES" and aw: "awaiting (user_id u) (gid, g0)"
      and upd: "games_of (secret u args GAMES)
        = AList.update gid (g0\<lparr>secrets := (secrets g0)(user_id u \<mapsto> Some (strip (hd args)))\<rparr>) GAMES"
    from mem dist have g0: "map_of GAMES gid = Some g0"
      by simp
    show ?thesis
    proof (cases "gid = k")
      case True
      with g0 look have "g0 = g"
        by simp
      with aw sec have "user_id u \<noteq> p"
        by (auto simp: awaiting_def secret_is_none_def)
      with upd True \<open>g0 = g\<close> sec show ?thesis
        by (simp add: update_conv')
    next
      case False
      with upd look sec show ?thesis
        by (simp add: update_conv')
    qed
  qed
next
  from guess_games[of u args GAMES] look sec
  show "\<exists>g'. map_of (games_of (guess u args GAMES)) k = Some g' \<and> secrets g' p = Some (Some s)"
    by (cases "chat_id u = k") (auto simp: update_conv')
next
  from join_games[of u GAMES] look sec pl
  show "\<exists>g'. map_of (games_of (join u GAMES)) k = Some g' \<and> secrets g' p = Some (Some s)"
    by (cases "chat_id u = k") (auto simp: update_conv')
next
  assume same: "user_id u = p"
  from secret_games[of u args GAMES]
  show "map_of (games_of (secret u args GAMES)) k = Some g"
  proof (elim disjE exE conjE)
    assume "games_of (secret u args GAMES) = GAMES"
    with look show ?thesis
      by simp
  next
    fix gid g0
    assume mem: "(gid, g0) \<in> set GAMES" and aw: "awaiting (user_id u) (gid, g0)"
      and upd: "games_of (secret u args GAMES)
        = AList.update gid (g0\<lparr>secrets := (secrets g0)(user_id u \<mapsto> Some (strip (hd args)))\<rparr>) GAMES"
    from mem dist have "map_of GAMES gid = Some g0"
      by simp
    with look sec aw same have "gid \<noteq> k"
      by (auto simp: awaiting_def secret_is_none_def)
    with upd look show ?thesis
      by (simp add: update_conv')
  qed
next
  assume same: "user_id u = p"
  from secret_games[of u args GAMES]
  show "SecretSaved k \<notin> set (replies (secret u args GAMES))"
  proof (elim disjE exE conjE)
    assume "\<forall>gid. SecretSaved gid \<notin> set (replies (secret u args GAMES))"
    then show ?thesis
      by simp
  next
    fix gid g0
    assume mem: "(gid, g0) \<in> set GAMES" and aw: "awaiting (user_id u) (gid, g0)"
      and only: "\<forall>gid'. SecretSaved gid' \<in> set (replies (secret u args GAMES)) \<longrightarrow> gid' = gid"
    from mem dist have "map_of GAMES gid = Some g0"
      by simp
    with look sec aw same have "gid \<noteq> k"
      by (auto simp: awaiting_def secret_is_none_def)
    with only show ?thesis
      by blast
  qed
next
  assume a: "user_id u = p \<and> filter (awaiting p) GAMES = []"
  then have none: "\<not> (\<exists>gid g0. (gid, g0) \<in> set GAMES \<and> awaiting (user_id u) (gid, g0))"
    by (auto simp: filter_empty_conv)
  with secret_games[of u args GAMES]
  show "games_of (secret u args GAMES) = GAMES"
    by blast
  from none secret_games[of u args GAMES]
  show "\<forall>gid. SecretSaved gid \<notin> set (replies (secret u args GAMES))"
    by blast
qed

theorem committed_secret_is_kept_witness:
  "secrets started_game 1 = Some (Some [49, 50, 51, 52])
   \<and> (\<exists>g'. games_of (secret p1_private [[53, 54, 55, 57]] [(100, started_game)]) = [(100, g')]
        \<and> secrets g' 1 = Some (Some [49, 50, 51, 52]))
   \<and> (\<exists>g'. map_of (games_of (guess p1_group [[53, 54, 55, 57]] [(100, started_game)])) 100 = Some g'
        \<and> secrets g' 1 = Some (Some [49, 50, 51, 52]))
   \<and> secret p1_private [[53, 54, 55, 57]] [(100, started_game)]
       = Outcome None [NoGameAwaitingSecret] [(100, started_game)]"
proof -
  let ?G = "[(100, started_game)]"
  have h: "distinct (map fst ?G)" "map_of ?G 100 = Some started_game"
    "1 \<in> set (players started_game)" "secrets started_game 1 = Some (Some [49, 50, 51, 52])"
    by (simp_all add: started_lookups)
  have s: "secret p1_private [[53, 54, 55, 57]] ?G = Outcome None [NoGameAwaitingSecret] ?G"
    by (simp add: secret_def awaiting_def secret_is_none_def p1_private_fields started_lookups
        strip_samples valid_secret_samples)
  from committed_secret_is_kept[OF h, of p1_private "[[53, 54, 55, 57]]"]
    committed_secret_is_kept[OF h, of p1_group "[[53, 54, 55, 57]]"]
  show ?thesis
    by (simp add: s started_lookups)
qed

section \<open>Well-formed tables\<close>

text \<open>
  The empty table is well-formed and every handler keeps the table well-formed, whatever
  it is sent: the hypotheses \<open>wf_game\<close> and \<open>distinct (map fst GAMES)\<close> of the theorems
  above hold of every table the handlers can build.
\<close>

lemma set_update_subset: "set (AList.update k v al) \<subseteq> insert (k, v) (set al)"
  by (induction al) auto

lemma set_delete_subset: "set (AList.delete k al) \<subseteq> set al"
  by (induction al) auto

lemma wf_games_empty: "wf_games []"
  by (simp add: wf_games_def)

lemma wf_games_update:
  assumes "wf_games GAMES" "wf_game g"
  shows "wf_games (AList.update k g GAMES)"
  using assms set_update_subset[of k g GAMES]
  by (auto simp: wf_games_def list_all_iff distinct_update)

lemma wf_games_delete:
  assumes "wf_games GAMES"
  shows "wf_games (AList.delete k GAMES)"
  using assms set_delete_subset[of k GAMES]
  by (auto simp: wf_games_def list_all_iff distinct_delete)

lemma wf_games_lookup: "wf_games GAMES \<Longrightarrow> map_of GAMES k = Some g \<Longrightarrow> wf_game g"
  by (auto simp: wf_games_def list_all_iff dest: map_of_SomeD)

lemma wf_games_member: "wf_games GAMES \<Longrightarrow> (k, g) \<in> set GAMES \<Longrightarrow> wf_game g"
  by (auto simp: wf_games_def list_all_iff)

lemma wf_fresh_game: "wf_game fresh_game"
  by (simp add: wf_game_def fresh_game_def)

lemma two_players:
  assumes "x \<in> set ps" "y \<in> set ps" "x \<noteq> y"
  shows "2 \<le> length ps"
proof (cases ps)
  case Nil
  with assms show ?thesis by simp
next
  case (Cons a rest)
  with assms have "rest \<noteq> []"
    by auto
  with Cons show ?thesis
    by (cases rest) simp_all
qed

lemma wf_game_finish:
  assumes "wf_game g" "user \<in> set (players g)" "opp \<in> set (players g)" "opp \<noteq> user"
  shows "wf_game (g\<lparr>finished := True\<rparr>)" "wf_game (g\<lparr>turn_index := 1 - turn_index g\<rparr>)"
proof -
  from two_players[OF assms(3,2,4)] have "\<not> length (players g) < 2"
    by simp
  with assms(1) show "wf_game (g\<lparr>finished := True\<rparr>)"
    "wf_game (g\<lparr>turn_index := 1 - turn_index g\<rparr>)"
    by (auto simp: wf_game_def)
qed

lemma wf_game_join:
  assumes "wf_game g" "uid \<notin> set (players g)" "length (players g) < 2"
  shows "wf_game (g\<lparr>players := players g @ [uid],
                    player_names := (player_names g)(uid \<mapsto> name),
                    secrets := (secrets g)(uid \<mapsto> None)\<rparr>)"
  using assms by (auto simp: wf_game_def list_all_iff)

lemma wf_game_secret:
  assumes "wf_game g" "uid \<in> set (players g)" "valid_secret num"
  shows "wf_game (g\<lparr>secrets := (secrets g)(uid \<mapsto> Some num)\<rparr>)"
  using assms by (auto simp: wf_game_def list_all_iff)

lemma wf_games_newgame: "wf_games GAMES \<Longrightarrow> wf_games (games_of (newgame u GAMES))"
  by (simp add: newgame_def wf_games_update wf_fresh_game)

lemma wf_games_cancel: "wf_games GAMES \<Longrightarrow> wf_games (games_of (cancel u GAMES))"
  by (simp add: cancel_def wf_games_delete)

lemma wf_games_join:
  assumes "wf_games GAMES"
  shows "wf_games (games_of (join u GAMES))"
  using join_games[of u GAMES] assms
  by (auto intro!: wf_games_update wf_game_join dest: wf_games_lookup)

lemma wf_games_secret:
  assumes "wf_games GAMES"
  shows "wf_games (games_of (secret u args GAMES))"
  using secret_games[of u args GAMES] assms
  by (auto simp: awaiting_def intro!: wf_games_update wf_game_secret dest: wf_games_member)

lemma wf_games_guess:
  assumes "wf_games GAMES"
  shows "wf_games (games_of (guess u args GAMES))"
  using guess_games[of u args GAMES] assms
  by (auto intro!: wf_games_update wf_game_finish dest: wf_games_lookup)

text \<open>
  A well-formed game may still have a single player who holds a secret: \<open>secret\<close> does
  not wait for the second player. A guess of that player passes every guard and raises
  at the search for the opponent.
\<close>

lemma lone_player_guess_raises:
  "raised (guess p1_group [[53, 54, 55, 56]]
     (games_of (secret p1_private [[49, 50, 51, 52]]
        (games_of (join p1_group (games_of (newgame p1_group [])))))))
   = Some IndexError"
  by (simp add: newgame_def join_def secret_def guess_def play_def awaiting_def
      secret_is_none_def secret_set_def subscript_def fresh_game_def p1_group_fields
      p1_private_fields strip_samples valid_secret_samples Let_def)

end
